theory Spec2Isabelle
  imports Complex_Main
begin

section \<open>Numbers and sums\<close>

text \<open>
  Python's \<^verbatim>\<open>int\<close> is unbounded and is modelled by \<^typ>\<open>int\<close>. Python's
  \<^verbatim>\<open>float\<close> is modelled by \<^typ>\<open>real\<close>: the arithmetic of the formulas is
  taken exactly, the rounding of binary64 is not modelled. An \<^verbatim>\<open>int\<close> operand
  of a float operation is converted with \<^const>\<open>real_of_int\<close>.

  \<^verbatim>\<open>sum(xs)\<close> starts from 0 and adds the elements from left to right.
\<close>

definition py_sum :: "real list \<Rightarrow> real" where
  "py_sum xs = foldl (\<lambda>acc x. acc + x) 0 xs"

definition py_sum_int :: "int list \<Rightarrow> int" where
  "py_sum_int xs = foldl (\<lambda>acc x. acc + x) 0 xs"

section \<open>mail.py\<close>

subsection \<open>Enumerations\<close>

definition MAX_PARCEL_VOLUME :: int where
  "MAX_PARCEL_VOLUME = 50"

datatype DeliveryMode = NORMAL | EXPRESS

datatype Format = A3 | A4 | A5

fun DeliveryMode_str :: "DeliveryMode \<Rightarrow> string" where
  "DeliveryMode_str NORMAL = ''normal''"
| "DeliveryMode_str EXPRESS = ''express''"

text \<open>\<^verbatim>\<open>Format.__str__\<close> returns the member's name.\<close>

fun Format_str :: "Format \<Rightarrow> string" where
  "Format_str A3 = ''A3''"
| "Format_str A4 = ''A4''"
| "Format_str A5 = ''A5''"

subsection \<open>Mail and its three subclasses\<close>

text \<open>
  The class hierarchy is a tagged union: every variant carries the three fields of
  \<^verbatim>\<open>Mail\<close> (weight in grams, delivery mode, delivery address), \<^verbatim>\<open>Letter\<close>
  adds the format and \<^verbatim>\<open>Parcel\<close> the volume in liters.
\<close>

datatype Mail =
    Letter (weight_g: int) (delivery_mode: DeliveryMode) (delivery_address: string) (format: Format)
  | Parcel (weight_g: int) (delivery_mode: DeliveryMode) (delivery_address: string) (volume: int)
  | Advertisement (weight_g: int) (delivery_mode: DeliveryMode) (delivery_address: string)

definition weight_kg :: "Mail \<Rightarrow> real" where
  "weight_kg m = real_of_int (weight_g m) / 1000.0"

fun frank_normal :: "Mail \<Rightarrow> real" where
  "frank_normal (Letter w d a f) =
     (let base = (case f of A5 \<Rightarrow> 1.50 | A4 \<Rightarrow> 2.50 | A3 \<Rightarrow> 3.50)
      in base + weight_kg (Letter w d a f))"
| "frank_normal (Parcel w d a v) = 0.25 * real_of_int v + weight_kg (Parcel w d a v)"
| "frank_normal (Advertisement w d a) = 5.0 * weight_kg (Advertisement w d a)"

definition frank :: "Mail \<Rightarrow> real" where
  "frank m =
     (let base = frank_normal m
      in case delivery_mode m of NORMAL \<Rightarrow> base | EXPRESS \<Rightarrow> 2.0 * base)"

text \<open>\<^verbatim>\<open>Mail.is_valid\<close>, the base rule, which \<^verbatim>\<open>Letter\<close> and
  \<^verbatim>\<open>Advertisement\<close> inherit and \<^verbatim>\<open>Parcel\<close> calls through \<^verbatim>\<open>super()\<close>.\<close>

definition Mail_is_valid :: "Mail \<Rightarrow> bool" where
  "Mail_is_valid m = (delivery_address m \<noteq> [])"

fun is_valid :: "Mail \<Rightarrow> bool" where
  "is_valid (Parcel w d a v) = (Mail_is_valid (Parcel w d a v) \<and> v \<le> MAX_PARCEL_VOLUME)"
| "is_valid (Letter w d a f) = Mail_is_valid (Letter w d a f)"
| "is_valid (Advertisement w d a) = Mail_is_valid (Advertisement w d a)"

subsection \<open>String conversion\<close>

text \<open>\<^verbatim>\<open>str\<close> of an \<^verbatim>\<open>int\<close>: the decimal digits, after a minus sign when negative.\<close>

fun digits :: "nat \<Rightarrow> string" where
  "digits n =
     (if n < 10 then [''0123456789'' ! n]
      else digits (n div 10) @ [''0123456789'' ! (n mod 10)])"

definition str_int :: "int \<Rightarrow> string" where
  "str_int i = (if i < 0 then CHR ''-'' # digits (nat (- i)) else digits (nat i))"

definition general_info_str :: "Mail \<Rightarrow> string" where
  "general_info_str m =
     str_int (weight_g m) @ '' g, '' @ DeliveryMode_str (delivery_mode m) @
     '', pour '' @ [CHR 0x27] @ delivery_address m @ [CHR 0x27]"

definition invalid_str_suffix :: "Mail \<Rightarrow> string" where
  "invalid_str_suffix m = (if is_valid m then [] else '' (invalide)'')"

text \<open>\<^verbatim>\<open>Letter.__str__\<close>; the argument is a letter.\<close>

definition Letter_str :: "Mail \<Rightarrow> string" where
  "Letter_str m =
     ''Lettre : '' @ general_info_str m @ '', '' @ Format_str (format m) @ invalid_str_suffix m"

subsection \<open>Mailbox\<close>

record Mailbox =
  mails :: "Mail list"

definition Mailbox_init :: Mailbox where
  "Mailbox_init = \<lparr>mails = []\<rparr>"

definition add_mail :: "Mailbox \<Rightarrow> Mail \<Rightarrow> Mailbox" where
  "add_mail box m = box\<lparr>mails := mails box @ [m]\<rparr>"

definition Mailbox_frank :: "Mailbox \<Rightarrow> real" where
  "Mailbox_frank box = py_sum (map frank (filter is_valid (mails box)))"

definition invalid_mails :: "Mailbox \<Rightarrow> int" where
  "invalid_mails box = int (length (filter (\<lambda>m. \<not> is_valid m) (mails box)))"

section \<open>buildings.py\<close>

subsection \<open>Objects and the store\<close>

text \<open>
  Persons and buildings are mutable objects compared by identity, so they live in a
  store and are named by their addresses. The addresses below \<open>n_persons\<close> and
  \<open>n_buildings\<close> are the allocated ones; what the store holds at the others is
  never read. A person's \<^verbatim>\<open>owned_buildings\<close> is the list of the addresses of the
  buildings, in the order of the list.
\<close>

type_synonym pid = nat

type_synonym bid = nat

record Person =
  full_name :: string
  owned_buildings :: "bid list"

datatype Appartment = Appartment (Appartment_living_area: int)

text \<open>
  A building is a \<^verbatim>\<open>House\<close> (owner, living area, garden area) or an
  \<^verbatim>\<open>AppartmentBuilding\<close> (owner, the copied list of appartments).
\<close>

datatype Building =
    House (owner: pid) int int
  | AppartmentBuilding (owner: pid) "Appartment list"

fun with_owner :: "pid \<Rightarrow> Building \<Rightarrow> Building" where
  "with_owner q (House p l g) = House q l g"
| "with_owner q (AppartmentBuilding p apps) = AppartmentBuilding q apps"

record store =
  persons :: "pid \<Rightarrow> Person"
  buildings :: "bid \<Rightarrow> Building"
  n_persons :: nat
  n_buildings :: nat

definition empty_store :: store where
  "empty_store =
     \<lparr>persons = (\<lambda>_. \<lparr>full_name = [], owned_buildings = []\<rparr>),
      buildings = (\<lambda>_. House 0 0 0),
      n_persons = 0, n_buildings = 0\<rparr>"

datatype error = ValueError

definition owned :: "store \<Rightarrow> pid \<Rightarrow> bid list" where
  "owned s p = owned_buildings (persons s p)"

text \<open>The getter of the property \<^verbatim>\<open>owner\<close>.\<close>

definition owner_getter :: "store \<Rightarrow> bid \<Rightarrow> pid" where
  "owner_getter s self = owner (buildings s self)"

text \<open>\<^verbatim>\<open>p.owned_buildings.append(b)\<close>.\<close>

definition owned_append :: "pid \<Rightarrow> bid \<Rightarrow> store \<Rightarrow> store" where
  "owned_append p b s =
     s\<lparr>persons := (persons s)(p := (persons s p)\<lparr>owned_buildings := owned s p @ [b]\<rparr>)\<rparr>"

text \<open>
  \<^verbatim>\<open>p.owned_buildings.remove(b)\<close> deletes the first occurrence of \<open>b\<close> and raises
  \<^verbatim>\<open>ValueError\<close> when there is none.
\<close>

definition owned_remove :: "pid \<Rightarrow> bid \<Rightarrow> store \<Rightarrow> error + store" where
  "owned_remove p b s =
     (if b \<in> set (owned s p)
      then Inr (s\<lparr>persons := (persons s)(p := (persons s p)\<lparr>owned_buildings := remove1 b (owned s p)\<rparr>)\<rparr>)
      else Inl ValueError)"

subsection \<open>Constructors and the transfer of ownership\<close>

definition Person_init :: "string \<Rightarrow> store \<Rightarrow> pid \<times> store" where
  "Person_init name s =
     (let self = n_persons s
      in (self, s\<lparr>persons := (persons s)(self := \<lparr>full_name = name, owned_buildings = []\<rparr>),
                  n_persons := Suc self\<rparr>))"

text \<open>
  A constructor takes the next free address for the new object, writes the object's
  fields and, as \<^verbatim>\<open>Building.__init__\<close> does, appends the new building to the
  list of its initial owner.
\<close>

definition House_init :: "pid \<Rightarrow> int \<Rightarrow> int \<Rightarrow> store \<Rightarrow> bid \<times> store" where
  "House_init initial_owner living garden s =
     (let self = n_buildings s;
          s1 = s\<lparr>buildings := (buildings s)(self := House initial_owner living garden),
                 n_buildings := Suc self\<rparr>
      in (self, owned_append initial_owner self s1))"

definition AppartmentBuilding_init :: "pid \<Rightarrow> Appartment list \<Rightarrow> store \<Rightarrow> bid \<times> store" where
  "AppartmentBuilding_init initial_owner appartments s =
     (let self = n_buildings s;
          s1 = s\<lparr>buildings := (buildings s)(self := AppartmentBuilding initial_owner appartments),
                 n_buildings := Suc self\<rparr>
      in (self, owned_append initial_owner self s1))"

text \<open>
  The setter of the property \<^verbatim>\<open>owner\<close>: remove from the list of the current
  owner, write the field, append to the list of the new owner.
\<close>

definition owner_setter :: "bid \<Rightarrow> pid \<Rightarrow> store \<Rightarrow> error + store" where
  "owner_setter self new_owner s =
     (case owned_remove (owner_getter s self) self s of
        Inl e \<Rightarrow> Inl e
      | Inr s1 \<Rightarrow>
          (let s2 = s1\<lparr>buildings := (buildings s1)(self := with_owner new_owner (buildings s1 self))\<rparr>
           in Inr (owned_append new_owner self s2)))"

subsection \<open>Areas and taxes\<close>

definition LIVING_AREA_TAX_RATE :: real where
  "LIVING_AREA_TAX_RATE = 5.6"

definition GARDEN_AREA_TAX_RATE :: real where
  "GARDEN_AREA_TAX_RATE = 1.5"

fun living_area :: "Building \<Rightarrow> int" where
  "living_area (House p l g) = l"
| "living_area (AppartmentBuilding p apps) = py_sum_int (map Appartment_living_area apps)"

fun garden_area :: "Building \<Rightarrow> int" where
  "garden_area (House p l g) = g"
| "garden_area (AppartmentBuilding p apps) = 0"

definition compute_taxes_for_building :: "Building \<Rightarrow> real" where
  "compute_taxes_for_building building =
     (let living_area_taxes = LIVING_AREA_TAX_RATE * real_of_int (living_area building);
          garden_taxes = GARDEN_AREA_TAX_RATE * real_of_int (garden_area building)
      in living_area_taxes + garden_taxes)"

definition compute_taxes :: "store \<Rightarrow> pid \<Rightarrow> real" where
  "compute_taxes s person =
     py_sum (map (\<lambda>b. compute_taxes_for_building (buildings s b)) (owned s person))"

subsection \<open>States the program can reach\<close>

text \<open>
  The program builds persons and buildings and transfers buildings; it passes
  references to objects that exist. The lists \<^verbatim>\<open>owned_buildings\<close> are changed by
  \<^verbatim>\<open>Building\<close> only, as the class asks of its users.
\<close>

inductive reachable :: "store \<Rightarrow> bool" where
  r_empty: "reachable empty_store"
| r_person: "reachable s \<Longrightarrow> reachable (snd (Person_init name s))"
| r_house: "reachable s \<Longrightarrow> p < n_persons s \<Longrightarrow> reachable (snd (House_init p l g s))"
| r_appartments:
    "reachable s \<Longrightarrow> p < n_persons s \<Longrightarrow> reachable (snd (AppartmentBuilding_init p apps s))"
| r_transfer:
    "reachable s \<Longrightarrow> b < n_buildings s \<Longrightarrow> q < n_persons s \<Longrightarrow> owner_setter b q s = Inr s'
     \<Longrightarrow> reachable s'"

text \<open>
  Every building has an allocated owner, the lists hold allocated buildings only, and a
  building stands once in the list of its owner and in no other list.
\<close>

definition ownership_inv :: "store \<Rightarrow> bool" where
  "ownership_inv s \<longleftrightarrow>
     (\<forall>b<n_buildings s. owner_getter s b < n_persons s) \<and>
     (\<forall>p<n_persons s. \<forall>b. b \<in> set (owned s p) \<longrightarrow> b < n_buildings s) \<and>
     (\<forall>b<n_buildings s. \<forall>p<n_persons s.
        count_list (owned s p) b = (if p = owner_getter s b then 1 else 0))"

text \<open>The position of a building in a list: the index of its first occurrence.\<close>

definition position :: "bid \<Rightarrow> bid list \<Rightarrow> nat" where
  "position b xs = length (takeWhile (\<lambda>x. x \<noteq> b) xs)"

subsection \<open>The objects of the test suite\<close>

definition test_mailbox :: Mailbox where
  "test_mailbox =
     add_mail (add_mail (add_mail (add_mail (add_mail (add_mail (add_mail Mailbox_init
       (Letter 180 NORMAL ''dest'' A5))
       (Letter 240 EXPRESS [] A4))
       (Parcel 1800 NORMAL ''dest'' 2))
       (Parcel 1800 NORMAL [] 2))
       (Parcel 15000 EXPRESS ''dest'' 200))
       (Advertisement 200 NORMAL ''dest''))
       (Advertisement 240 EXPRESS [])"

definition test_store :: store where
  "test_store =
     (let s1 = snd (Person_init ''Alice'' empty_store);
          s2 = snd (House_init 0 50 10 s1);
          s3 = snd (AppartmentBuilding_init 0 [Appartment 30, Appartment 60] s2)
      in snd (Person_init ''Bob'' s3))"

definition one_house_store :: store where
  "one_house_store = snd (House_init 0 50 10 (snd (Person_init ''Alice'' empty_store)))"

section \<open>Sums from the left\<close>

lemma foldl_add_real: "foldl (\<lambda>acc x. acc + x) a xs = a + sum_list xs"
  for a :: real
  by (induction xs arbitrary: a) simp_all

lemma py_sum_sum_list: "py_sum xs = sum_list xs"
  by (simp add: py_sum_def foldl_add_real)

lemma foldl_add_int: "foldl (\<lambda>acc x. acc + x) a xs = a + sum_list xs"
  for a :: int
  by (induction xs arbitrary: a) simp_all

lemma py_sum_int_sum_list: "py_sum_int xs = sum_list xs"
  by (simp add: py_sum_int_def foldl_add_int)

declare digits.simps [simp del]

section \<open>Franking and validity of a mail\<close>

text \<open>
  Claim C2. For every letter, \<^verbatim>\<open>frank_normal()\<close> is the base amount of the format
  (1.50 for A5, 2.50 for A4, 3.50 for A3) plus the weight in kilograms; for every parcel
  it is 0.25 times the volume plus the weight in kilograms; for every advertisement it
  is 5.0 times the weight in kilograms; the weight in kilograms is the weight in grams
  divided by 1000.0.
\<close>

theorem frank_normal_formulas:
  "frank_normal (Letter w d a A5) = 1.50 + real_of_int w / 1000.0 \<and>
   frank_normal (Letter w d a A4) = 2.50 + real_of_int w / 1000.0 \<and>
   frank_normal (Letter w d a A3) = 3.50 + real_of_int w / 1000.0 \<and>
   frank_normal (Parcel w d a v) = 0.25 * real_of_int v + real_of_int w / 1000.0 \<and>
   frank_normal (Advertisement w d a) = 5.0 * (real_of_int w / 1000.0) \<and>
   weight_kg m = real_of_int (weight_g m) / 1000.0"
  by (simp add: weight_kg_def)

theorem frank_normal_formulas_witness:
  "frank_normal (Letter 180 NORMAL ''dest'' A5) = 1.68 \<and>
   frank_normal (Letter 240 EXPRESS [] A4) = 2.74 \<and>
   frank_normal (Parcel 1800 NORMAL ''dest'' 2) = 2.30 \<and>
   frank_normal (Advertisement 200 NORMAL ''dest'') = 1.0"
  using frank_normal_formulas [where w = 180 and d = NORMAL and a = "''dest''"]
    frank_normal_formulas [where w = 240 and d = EXPRESS and a = "[]"]
    frank_normal_formulas [where w = 1800 and d = NORMAL and a = "''dest''" and v = 2]
    frank_normal_formulas [where w = 200 and d = NORMAL and a = "''dest''"]
  by (simp add: weight_kg_def)

text \<open>
  Claim C3. For every mail of every variant, \<^verbatim>\<open>frank()\<close> is \<^verbatim>\<open>frank_normal()\<close>
  unchanged when the delivery mode is \<^verbatim>\<open>NORMAL\<close>, and twice \<^verbatim>\<open>frank_normal()\<close>
  when it is \<^verbatim>\<open>EXPRESS\<close>.
\<close>

theorem frank_delivery_mode:
  "(delivery_mode m = NORMAL \<longrightarrow> frank m = frank_normal m) \<and>
   (delivery_mode m = EXPRESS \<longrightarrow> frank m = 2 * frank_normal m)"
  by (simp add: frank_def)

theorem frank_delivery_mode_witness:
  "frank (Letter 240 EXPRESS [] A4) = 2 * frank_normal (Letter 240 EXPRESS [] A4) \<and>
   frank (Parcel 1800 NORMAL ''dest'' 2) = frank_normal (Parcel 1800 NORMAL ''dest'' 2) \<and>
   frank (Advertisement 240 EXPRESS []) = 2 * frank_normal (Advertisement 240 EXPRESS [])"
  using frank_delivery_mode [of "Letter 240 EXPRESS [] A4"]
    frank_delivery_mode [of "Parcel 1800 NORMAL ''dest'' 2"]
    frank_delivery_mode [of "Advertisement 240 EXPRESS []"]
  by simp

text \<open>
  Claim C4. A letter or an advertisement is valid if and only if its delivery address is
  not empty; a parcel is valid if and only if its delivery address is not empty and its
  volume is at most 50. So a parcel with an address and a volume above 50 is invalid,
  and no variant is valid where the base rule of \<^verbatim>\<open>Mail\<close> fails.
\<close>

theorem is_valid_rules:
  "is_valid (Letter w d a f) = (a \<noteq> []) \<and>
   is_valid (Advertisement w d a) = (a \<noteq> []) \<and>
   is_valid (Parcel w d a v) = (a \<noteq> [] \<and> v \<le> 50) \<and>
   (a \<noteq> [] \<and> 50 < v \<longrightarrow> \<not> is_valid (Parcel w d a v)) \<and>
   (is_valid m \<longrightarrow> Mail_is_valid m \<and> delivery_address m \<noteq> [])"
  by (cases m) (simp_all add: Mail_is_valid_def MAX_PARCEL_VOLUME_def)

theorem is_valid_rules_witness:
  "is_valid (Letter 180 NORMAL ''dest'' A5) \<and>
   \<not> is_valid (Letter 240 EXPRESS [] A4) \<and>
   is_valid (Parcel 1800 NORMAL ''dest'' 2) \<and>
   \<not> is_valid (Parcel 1800 NORMAL [] 2) \<and>
   \<not> is_valid (Parcel 15000 EXPRESS ''dest'' 200) \<and>
   \<not> is_valid (Advertisement 240 EXPRESS [])"
  using is_valid_rules [of 180 NORMAL "''dest''" A5 2 "Letter 180 NORMAL ''dest'' A5"]
    is_valid_rules [of 240 EXPRESS "[]" A4 2 "Letter 180 NORMAL ''dest'' A5"]
    is_valid_rules [of 1800 NORMAL "''dest''" A4 2 "Letter 180 NORMAL ''dest'' A5"]
    is_valid_rules [of 1800 NORMAL "[]" A4 2 "Letter 180 NORMAL ''dest'' A5"]
    is_valid_rules [of 15000 EXPRESS "''dest''" A4 200 "Letter 180 NORMAL ''dest'' A5"]
  by simp

section \<open>Mailbox, string conversion, franking of invalid mails\<close>

text \<open>
  Claim C5. For every mailbox, \<^verbatim>\<open>frank()\<close> is the sum of \<^verbatim>\<open>frank()\<close> over
  exactly the contained mails that are valid, and \<^verbatim>\<open>invalid_mails()\<close> is the number
  of the contained mails that are not valid, that is, of the rest. Adding an invalid
  mail leaves the total unchanged and raises the count by one; adding a valid mail adds
  its \<^verbatim>\<open>frank()\<close> to the total and leaves the count unchanged. No operation of the
  mailbox has an error path.
\<close>

theorem Mailbox_totals:
  "Mailbox_frank box = sum_list (map frank (filter is_valid (mails box))) \<and>
   invalid_mails box = int (length (filter (\<lambda>m. \<not> is_valid m) (mails box))) \<and>
   invalid_mails box = int (length (mails box)) - int (length (filter is_valid (mails box))) \<and>
   (\<not> is_valid m \<longrightarrow> Mailbox_frank (add_mail box m) = Mailbox_frank box \<and>
      invalid_mails (add_mail box m) = invalid_mails box + 1) \<and>
   (is_valid m \<longrightarrow> Mailbox_frank (add_mail box m) = Mailbox_frank box + frank m \<and>
      invalid_mails (add_mail box m) = invalid_mails box)"
proof -
  have "length (filter is_valid (mails box)) + length (filter (\<lambda>m. \<not> is_valid m) (mails box))
          = length (mails box)"
    by (rule sum_length_filter_compl)
  then have "invalid_mails box = int (length (mails box)) - int (length (filter is_valid (mails box)))"
    unfolding invalid_mails_def by linarith
  then show ?thesis
    by (simp add: Mailbox_frank_def invalid_mails_def add_mail_def py_sum_sum_list)
qed

theorem Mailbox_totals_witness:
  "Mailbox_frank test_mailbox = 1.68 + 2.30 + 1.0 \<and> invalid_mails test_mailbox = 4"
  using Mailbox_totals [of test_mailbox]
  by (simp add: test_mailbox_def add_mail_def Mailbox_init_def frank_def weight_kg_def
      Mail_is_valid_def MAX_PARCEL_VOLUME_def)

text \<open>
  Claim C8. For every letter, \<^verbatim>\<open>str(letter)\<close> is exactly
  \<^verbatim>\<open>Lettre : {weight_g} g, {mode}, pour '{address}', {FORMAT}{suffix}\<close>, where the
  mode is rendered \<^verbatim>\<open>normal\<close> or \<^verbatim>\<open>express\<close>, the format \<^verbatim>\<open>A3\<close>,
  \<^verbatim>\<open>A4\<close> or \<^verbatim>\<open>A5\<close>, and the suffix is \<^verbatim>\<open> (invalide)\<close> when the letter
  is invalid and empty otherwise. The apostrophe is the character \<open>0x27\<close>.
\<close>

theorem Letter_str_format:
  "Letter_str (Letter w d a f) =
     ''Lettre : '' @ str_int w @ '' g, '' @
     (case d of NORMAL \<Rightarrow> ''normal'' | EXPRESS \<Rightarrow> ''express'') @
     '', pour '' @ [CHR 0x27] @ a @ [CHR 0x27] @ '', '' @
     (case f of A3 \<Rightarrow> ''A3'' | A4 \<Rightarrow> ''A4'' | A5 \<Rightarrow> ''A5'') @
     (if is_valid (Letter w d a f) then [] else '' (invalide)'')"
  by (cases d; cases f) (simp_all add: Letter_str_def general_info_str_def invalid_str_suffix_def)

lemma digits_180: "digits 180 = ''180''" by code_simp

lemma digits_240: "digits 240 = ''240''" by code_simp

theorem Letter_str_format_witness:
  "Letter_str (Letter 180 NORMAL ''dest'' A5) =
     ''Lettre : 180 g, normal, pour '' @ [CHR 0x27] @ ''dest'' @ [CHR 0x27] @ '', A5'' \<and>
   Letter_str (Letter 240 EXPRESS [] A4) =
     ''Lettre : 240 g, express, pour '' @ [CHR 0x27] @ [CHR 0x27] @ '', A4 (invalide)''"
  using Letter_str_format [of 180 NORMAL "''dest''" A5] Letter_str_format [of 240 EXPRESS "[]" A4]
  by (simp add: str_int_def digits_180 digits_240 Mail_is_valid_def)

text \<open>
  Claim C10. \<^verbatim>\<open>frank()\<close> is defined for every mail (it is a total function with no
  error path) and is the amount computed by the variant whatever \<^verbatim>\<open>is_valid()\<close>
  says: the delivery address has no influence on it, so a mail with an empty address
  has the amount of the same mail with any other address, and a parcel is franked by
  the formula of parcels on its own volume, also above \<^verbatim>\<open>MAX_PARCEL_VOLUME\<close>, where
  it is invalid.
\<close>

theorem frank_regardless_of_validity:
  "frank (Letter w d a f) = frank (Letter w d a' f) \<and>
   frank (Parcel w d a v) = frank (Parcel w d a' v) \<and>
   frank (Advertisement w d a) = frank (Advertisement w d a') \<and>
   frank m = (case delivery_mode m of NORMAL \<Rightarrow> 1 | EXPRESS \<Rightarrow> 2) * frank_normal m \<and>
   frank (Parcel w d a v) =
     (case d of NORMAL \<Rightarrow> 1 | EXPRESS \<Rightarrow> 2) * (0.25 * real_of_int v + real_of_int w / 1000.0) \<and>
   (MAX_PARCEL_VOLUME < v \<longrightarrow> \<not> is_valid (Parcel w d a v)) \<and>
   \<not> is_valid (Letter w d [] f) \<and> \<not> is_valid (Parcel w d [] v) \<and>
   \<not> is_valid (Advertisement w d [])"
  by (cases d; cases "delivery_mode m") (simp_all add: frank_def weight_kg_def Mail_is_valid_def)

theorem frank_regardless_of_validity_witness:
  "\<not> is_valid (Parcel 15000 EXPRESS ''dest'' 200) \<and>
   frank (Parcel 15000 EXPRESS ''dest'' 200) = 130.00 \<and>
   \<not> is_valid (Letter 240 EXPRESS [] A4) \<and>
   frank (Letter 240 EXPRESS [] A4) = frank (Letter 240 EXPRESS ''dest'' A4)"
  using frank_regardless_of_validity [of 15000 EXPRESS "''dest''" A4 "[]" 200 "Letter 240 EXPRESS [] A4"]
    frank_regardless_of_validity [of 240 EXPRESS "[]" A4 "''dest''" 200 "Letter 240 EXPRESS [] A4"]
  by (simp add: MAX_PARCEL_VOLUME_def)

section \<open>The store under the constructors and the transfer\<close>

lemma owned_append_simps:
  "owned (owned_append p b s) r = (if r = p then owned s p @ [b] else owned s r)"
  "buildings (owned_append p b s) = buildings s"
  "n_persons (owned_append p b s) = n_persons s"
  "n_buildings (owned_append p b s) = n_buildings s"
  "owner_getter (owned_append p b s) x = owner_getter s x"
  by (simp_all add: owned_append_def owned_def owner_getter_def)

lemma Person_init_simps:
  "fst (Person_init name s) = n_persons s"
  "owned (snd (Person_init name s)) r = (if r = n_persons s then [] else owned s r)"
  "buildings (snd (Person_init name s)) = buildings s"
  "n_persons (snd (Person_init name s)) = Suc (n_persons s)"
  "n_buildings (snd (Person_init name s)) = n_buildings s"
  "owner_getter (snd (Person_init name s)) x = owner_getter s x"
  by (simp_all add: Person_init_def Let_def owned_def owner_getter_def)

lemma House_init_simps:
  "fst (House_init p l g s) = n_buildings s"
  "owned (snd (House_init p l g s)) r = (if r = p then owned s p @ [n_buildings s] else owned s r)"
  "buildings (snd (House_init p l g s)) = (buildings s)(n_buildings s := House p l g)"
  "n_persons (snd (House_init p l g s)) = n_persons s"
  "n_buildings (snd (House_init p l g s)) = Suc (n_buildings s)"
  "owner_getter (snd (House_init p l g s)) x = (if x = n_buildings s then p else owner_getter s x)"
  by (simp_all add: House_init_def Let_def owned_append_simps owned_def owner_getter_def
      owned_append_def)

lemma AppartmentBuilding_init_simps:
  "fst (AppartmentBuilding_init p apps s) = n_buildings s"
  "owned (snd (AppartmentBuilding_init p apps s)) r =
     (if r = p then owned s p @ [n_buildings s] else owned s r)"
  "buildings (snd (AppartmentBuilding_init p apps s)) =
     (buildings s)(n_buildings s := AppartmentBuilding p apps)"
  "n_persons (snd (AppartmentBuilding_init p apps s)) = n_persons s"
  "n_buildings (snd (AppartmentBuilding_init p apps s)) = Suc (n_buildings s)"
  "owner_getter (snd (AppartmentBuilding_init p apps s)) x =
     (if x = n_buildings s then p else owner_getter s x)"
  by (simp_all add: AppartmentBuilding_init_def Let_def owned_def owner_getter_def
      owned_append_def)

lemma with_owner_simps:
  "owner (with_owner q B) = q"
  "living_area (with_owner q B) = living_area B"
  "garden_area (with_owner q B) = garden_area B"
  by (cases B; simp)+


lemma owner_setter_ValueError:
  "b \<notin> set (owned s (owner_getter s b)) \<Longrightarrow> owner_setter b q s = Inl ValueError"
  by (simp add: owner_setter_def owned_remove_def)

lemma owner_setter_Inr:
  assumes "b \<in> set (owned s (owner_getter s b))"
  shows "\<exists>s'. owner_setter b q s = Inr s' \<and>
           n_persons s' = n_persons s \<and> n_buildings s' = n_buildings s \<and>
           (\<forall>r. owned s' r =
              (if r = q then (if q = owner_getter s b then remove1 b (owned s q) else owned s q) @ [b]
               else if r = owner_getter s b then remove1 b (owned s r) else owned s r)) \<and>
           (\<forall>x. owner_getter s' x = (if x = b then q else owner_getter s x)) \<and>
           (\<forall>x. buildings s' x = (if x = b then with_owner q (buildings s b) else buildings s x))"
  using assms
  by (simp add: owner_setter_def owned_remove_def Let_def owned_append_def owned_def
      owner_getter_def with_owner_simps)

lemma count_list_remove1:
  "count_list (remove1 x xs) y =
     (if x = y \<and> x \<in> set xs then count_list xs y - 1 else count_list xs y)"
  by (induction xs) auto

lemma inv_empty: "ownership_inv empty_store"
  by (simp add: ownership_inv_def empty_store_def)

lemma inv_Person_init:
  assumes "ownership_inv s"
  shows "ownership_inv (snd (Person_init name s))"
  using assms unfolding ownership_inv_def
  by (auto simp: Person_init_simps less_Suc_eq)

lemma inv_new_building:
  assumes inv: "ownership_inv s" and p: "p < n_persons s"
    and np: "n_persons s' = n_persons s" and nb: "n_buildings s' = Suc (n_buildings s)"
    and ow: "\<And>r. owned s' r = (if r = p then owned s p @ [n_buildings s] else owned s r)"
    and og: "\<And>x. owner_getter s' x = (if x = n_buildings s then p else owner_getter s x)"
  shows "ownership_inv s'"
proof -
  from inv have i1: "\<And>x. x < n_buildings s \<Longrightarrow> owner_getter s x < n_persons s"
    and i2: "\<And>r x. r < n_persons s \<Longrightarrow> x \<in> set (owned s r) \<Longrightarrow> x < n_buildings s"
    and i3: "\<And>x r. x < n_buildings s \<Longrightarrow> r < n_persons s \<Longrightarrow>
        count_list (owned s r) x = (if r = owner_getter s x then 1 else 0)"
    by (auto simp: ownership_inv_def)
  have fresh: "count_list (owned s r) (n_buildings s) = 0" if "r < n_persons s" for r
    using i2 [OF that, of "n_buildings s"] by (auto intro: count_notin)
  have c1: "\<forall>x<n_buildings s'. owner_getter s' x < n_persons s'"
    using i1 p by (simp add: np nb og less_Suc_eq)
  have c2: "\<forall>r<n_persons s'. \<forall>x. x \<in> set (owned s' r) \<longrightarrow> x < n_buildings s'"
    using i2 by (auto simp: np nb ow less_Suc_eq)
  have c3: "\<forall>x<n_buildings s'. \<forall>r<n_persons s'.
        count_list (owned s' r) x = (if r = owner_getter s' x then 1 else 0)"
    using i3 fresh by (simp add: np nb ow og less_Suc_eq)
  from c1 c2 c3 show ?thesis
    unfolding ownership_inv_def by blast
qed

lemma inv_House_init:
  assumes "ownership_inv s" "p < n_persons s"
  shows "ownership_inv (snd (House_init p l g s))"
  using assms by (rule inv_new_building) (simp_all add: House_init_simps)

lemma inv_AppartmentBuilding_init:
  assumes "ownership_inv s" "p < n_persons s"
  shows "ownership_inv (snd (AppartmentBuilding_init p apps s))"
  using assms by (rule inv_new_building) (simp_all add: AppartmentBuilding_init_simps)

lemma inv_owned:
  assumes "ownership_inv s" "b < n_buildings s"
  shows "b \<in> set (owned s (owner_getter s b))"
proof -
  from assms have "owner_getter s b < n_persons s"
    by (simp add: ownership_inv_def)
  with assms have "count_list (owned s (owner_getter s b)) b = 1"
    by (simp add: ownership_inv_def)
  then show ?thesis
    by (metis count_list_0_iff zero_neq_one)
qed

lemma inv_owner_setter:
  assumes "ownership_inv s" "b < n_buildings s" "q < n_persons s" "owner_setter b q s = Inr s'"
  shows "ownership_inv s'"
proof -
  from inv_owned [OF assms(1,2)] owner_setter_Inr [of b s q] assms(4)
  have s': "n_persons s' = n_persons s" "n_buildings s' = n_buildings s"
    "\<And>r. owned s' r =
       (if r = q then (if q = owner_getter s b then remove1 b (owned s q) else owned s q) @ [b]
        else if r = owner_getter s b then remove1 b (owned s r) else owned s r)"
    "\<And>x. owner_getter s' x = (if x = b then q else owner_getter s x)"
    by auto
  from assms(1) have i1: "\<And>x. x < n_buildings s \<Longrightarrow> owner_getter s x < n_persons s"
    and i2: "\<And>p x. p < n_persons s \<Longrightarrow> x \<in> set (owned s p) \<Longrightarrow> x < n_buildings s"
    and i3: "\<And>x p. x < n_buildings s \<Longrightarrow> p < n_persons s \<Longrightarrow>
        count_list (owned s p) x = (if p = owner_getter s x then 1 else 0)"
    by (auto simp: ownership_inv_def)
  have c1: "\<forall>x<n_buildings s'. owner_getter s' x < n_persons s'"
    using i1 assms(3) by (simp add: s')
  have c2: "\<forall>p<n_persons s'. \<forall>x. x \<in> set (owned s' p) \<longrightarrow> x < n_buildings s'"
    using i2 assms(2) by (auto simp: s' dest: notin_set_remove1 split: if_splits)
  have c3: "\<forall>x<n_buildings s'. \<forall>p<n_persons s'.
        count_list (owned s' p) x = (if p = owner_getter s' x then 1 else 0)"
    using i3 i1 [OF assms(2)] assms(2,3) inv_owned [OF assms(1,2)]
    by (auto simp: s' count_list_remove1)
  from c1 c2 c3 show ?thesis
    unfolding ownership_inv_def by blast
qed

lemma reachable_inv: "reachable s \<Longrightarrow> ownership_inv s"
  by (induction rule: reachable.induct)
    (auto intro: inv_empty inv_Person_init inv_House_init inv_AppartmentBuilding_init
      inv_owner_setter)

section \<open>Lists, positions and the objects of the test suite\<close>

lemma empty_store_simps:
  "n_persons empty_store = 0" "n_buildings empty_store = 0" "owned empty_store r = []"
  by (simp_all add: empty_store_def owned_def)

lemma takeWhile_neq_append:
  "b \<notin> set ys \<Longrightarrow> takeWhile (\<lambda>x. x \<noteq> b) (ys @ zs) = ys @ takeWhile (\<lambda>x. x \<noteq> b) zs"
  by (induction ys) auto

lemma position_moved_last:
  assumes "count_list xs b = 1"
  shows "position b (remove1 b xs @ [b]) = length xs - 1"
proof -
  from assms have "b \<in> set xs"
    by (metis count_list_0_iff zero_neq_one)
  moreover from this assms have "b \<notin> set (remove1 b xs)"
    by (simp add: count_list_remove1 flip: count_list_0_iff)
  ultimately show ?thesis
    by (simp add: position_def takeWhile_neq_append length_remove1)
qed

lemma position_last_iff:
  assumes "count_list xs b = 1"
  shows "(position b xs = length xs - 1) = (last xs = b)"
proof -
  from assms have "b \<in> set xs"
    by (metis count_list_0_iff zero_neq_one)
  then obtain ys zs where xs: "xs = ys @ b # zs" and ys: "b \<notin> set ys"
    by (auto dest: split_list_first)
  from assms xs ys have zs: "b \<notin> set zs"
    by (simp add: count_notin flip: count_list_0_iff)
  from ys have pos: "position b xs = length ys"
    by (simp add: xs position_def takeWhile_neq_append)
  show ?thesis
  proof (cases "zs = []")
    case True
    with pos xs show ?thesis by simp
  next
    case False
    then have "last xs \<in> set zs"
      by (simp add: xs)
    with zs have "last xs \<noteq> b" by auto
    with False pos xs show ?thesis by simp
  qed
qed


lemma reachable_test_store: "reachable test_store"
  unfolding test_store_def Let_def
  by (intro reachable.intros) (simp_all add: Person_init_simps House_init_simps)

lemma reachable_one_house_store: "reachable one_house_store"
  unfolding one_house_store_def
  by (intro reachable.intros) (simp_all add: Person_init_simps)

lemma test_store_simps:
  "n_persons test_store = 2" "n_buildings test_store = 2"
  "owned test_store 0 = [0, 1]" "owned test_store (Suc 0) = []"
  "owner_getter test_store 0 = 0" "owner_getter test_store (Suc 0) = 0"
  "buildings test_store 0 = House 0 50 10"
  "buildings test_store (Suc 0) = AppartmentBuilding 0 [Appartment 30, Appartment 60]"
  by (simp_all add: test_store_def Let_def Person_init_simps House_init_simps
      AppartmentBuilding_init_simps empty_store_simps)

lemma one_house_store_simps:
  "n_persons one_house_store = 1" "n_buildings one_house_store = 1"
  "owned one_house_store 0 = [0]" "owner_getter one_house_store 0 = 0"
  by (simp_all add: one_house_store_def Person_init_simps House_init_simps
      empty_store_simps)

section \<open>Ownership\<close>

lemma mem_iff_count: "(x \<in> set xs) = (0 < count_list xs x)"
  by (induction xs) auto

lemma inv_member_iff:
  assumes "ownership_inv s" "b < n_buildings s" "p < n_persons s"
  shows "(b \<in> set (owned s p)) = (p = owner_getter s b)"
proof -
  from assms have "count_list (owned s p) b = (if p = owner_getter s b then 1 else 0)"
    by (simp add: ownership_inv_def)
  then show ?thesis
    by (simp add: mem_iff_count)
qed

lemma transfer_effect:
  assumes r: "reachable s" and b: "b < n_buildings s" and q: "q < n_persons s"
  shows "\<exists>s'. owner_setter b q s = Inr s' \<and> reachable s' \<and>
           n_persons s' = n_persons s \<and> n_buildings s' = n_buildings s \<and>
           (\<forall>r. owned s' r =
              (if r = q then (if q = owner_getter s b then remove1 b (owned s q) else owned s q) @ [b]
               else if r = owner_getter s b then remove1 b (owned s r) else owned s r)) \<and>
           (\<forall>x. owner_getter s' x = (if x = b then q else owner_getter s x)) \<and>
           (\<forall>x. buildings s' x = (if x = b then with_owner q (buildings s b) else buildings s x))"
proof -
  from r have inv: "ownership_inv s" by (rule reachable_inv)
  from owner_setter_Inr [OF inv_owned [OF inv b], of q]
  obtain s' where s': "owner_setter b q s = Inr s'"
    and rest: "n_persons s' = n_persons s \<and> n_buildings s' = n_buildings s \<and>
           (\<forall>r. owned s' r =
              (if r = q then (if q = owner_getter s b then remove1 b (owned s q) else owned s q) @ [b]
               else if r = owner_getter s b then remove1 b (owned s r) else owned s r)) \<and>
           (\<forall>x. owner_getter s' x = (if x = b then q else owner_getter s x)) \<and>
           (\<forall>x. buildings s' x = (if x = b then with_owner q (buildings s b) else buildings s x))"
    by blast
  from r b q s' have "reachable s'" by (rule r_transfer)
  with s' rest show ?thesis by blast
qed

text \<open>
  Claim C1. In every state the program can reach, every building stands in the list of
  exactly one person, its current owner, and stands there once. Constructing a building
  appends it to the list of its initial owner. For every building \<open>b\<close> and person
  \<open>q\<close>, the transfer \<^verbatim>\<open>b.owner = q\<close> succeeds, removes \<open>b\<close> from the list of its
  owner, sets the owner of \<open>b\<close> to \<open>q\<close> and appends \<open>b\<close> to the list of \<open>q\<close>;
  afterwards \<open>b\<close> is in the list of \<open>q\<close> and of nobody else, and the state is again
  one the program can reach, so all of this holds of it in turn. States are observed
  between the operations: the program is sequential.
\<close>

theorem exactly_one_owner:
  assumes "reachable s"
  shows
    "(\<forall>b<n_buildings s.
        owner_getter s b < n_persons s \<and>
        count_list (owned s (owner_getter s b)) b = 1 \<and>
        (\<forall>p<n_persons s. (b \<in> set (owned s p)) = (p = owner_getter s b))) \<and>
     (\<forall>p<n_persons s. \<forall>l g.
        reachable (snd (House_init p l g s)) \<and>
        fst (House_init p l g s) = n_buildings s \<and>
        owner_getter (snd (House_init p l g s)) (n_buildings s) = p \<and>
        owned (snd (House_init p l g s)) p = owned s p @ [n_buildings s] \<and>
        (\<forall>r. r \<noteq> p \<longrightarrow> owned (snd (House_init p l g s)) r = owned s r)) \<and>
     (\<forall>p<n_persons s. \<forall>apps.
        reachable (snd (AppartmentBuilding_init p apps s)) \<and>
        fst (AppartmentBuilding_init p apps s) = n_buildings s \<and>
        owner_getter (snd (AppartmentBuilding_init p apps s)) (n_buildings s) = p \<and>
        owned (snd (AppartmentBuilding_init p apps s)) p = owned s p @ [n_buildings s] \<and>
        (\<forall>r. r \<noteq> p \<longrightarrow> owned (snd (AppartmentBuilding_init p apps s)) r = owned s r)) \<and>
     (\<forall>b<n_buildings s. \<forall>q<n_persons s. \<exists>s'.
        owner_setter b q s = Inr s' \<and> reachable s' \<and>
        owner_getter s' b = q \<and>
        owned s' q = (if q = owner_getter s b then remove1 b (owned s q) else owned s q) @ [b] \<and>
        (q \<noteq> owner_getter s b \<longrightarrow>
           owned s' (owner_getter s b) = remove1 b (owned s (owner_getter s b)) \<and>
           b \<notin> set (owned s' (owner_getter s b))) \<and>
        (\<forall>r<n_persons s'. (b \<in> set (owned s' r)) = (r = q)) \<and>
        (\<forall>r. r \<noteq> q \<and> r \<noteq> owner_getter s b \<longrightarrow> owned s' r = owned s r) \<and>
        (\<forall>x. x \<noteq> b \<longrightarrow> owner_getter s' x = owner_getter s x))"
proof -
  from assms have inv: "ownership_inv s" by (rule reachable_inv)
  have one: "\<forall>b<n_buildings s.
        owner_getter s b < n_persons s \<and>
        count_list (owned s (owner_getter s b)) b = 1 \<and>
        (\<forall>p<n_persons s. (b \<in> set (owned s p)) = (p = owner_getter s b))"
    using inv inv_member_iff [OF inv] by (simp add: ownership_inv_def)
  have house: "\<forall>p<n_persons s. \<forall>l g.
        reachable (snd (House_init p l g s)) \<and>
        fst (House_init p l g s) = n_buildings s \<and>
        owner_getter (snd (House_init p l g s)) (n_buildings s) = p \<and>
        owned (snd (House_init p l g s)) p = owned s p @ [n_buildings s] \<and>
        (\<forall>r. r \<noteq> p \<longrightarrow> owned (snd (House_init p l g s)) r = owned s r)"
    using assms by (simp add: House_init_simps r_house)
  have apps: "\<forall>p<n_persons s. \<forall>apps.
        reachable (snd (AppartmentBuilding_init p apps s)) \<and>
        fst (AppartmentBuilding_init p apps s) = n_buildings s \<and>
        owner_getter (snd (AppartmentBuilding_init p apps s)) (n_buildings s) = p \<and>
        owned (snd (AppartmentBuilding_init p apps s)) p = owned s p @ [n_buildings s] \<and>
        (\<forall>r. r \<noteq> p \<longrightarrow> owned (snd (AppartmentBuilding_init p apps s)) r = owned s r)"
    using assms by (simp add: AppartmentBuilding_init_simps r_appartments)
  have transfer: "\<exists>s'.
        owner_setter b q s = Inr s' \<and> reachable s' \<and>
        owner_getter s' b = q \<and>
        owned s' q = (if q = owner_getter s b then remove1 b (owned s q) else owned s q) @ [b] \<and>
        (q \<noteq> owner_getter s b \<longrightarrow>
           owned s' (owner_getter s b) = remove1 b (owned s (owner_getter s b)) \<and>
           b \<notin> set (owned s' (owner_getter s b))) \<and>
        (\<forall>r<n_persons s'. (b \<in> set (owned s' r)) = (r = q)) \<and>
        (\<forall>r. r \<noteq> q \<and> r \<noteq> owner_getter s b \<longrightarrow> owned s' r = owned s r) \<and>
        (\<forall>x. x \<noteq> b \<longrightarrow> owner_getter s' x = owner_getter s x)"
    if b: "b < n_buildings s" and q: "q < n_persons s" for b q
  proof -
    from transfer_effect [OF assms b q] obtain s' where
      s': "owner_setter b q s = Inr s'" and r': "reachable s'"
      and n: "n_persons s' = n_persons s" "n_buildings s' = n_buildings s"
      and ow: "\<And>r. owned s' r =
              (if r = q then (if q = owner_getter s b then remove1 b (owned s q) else owned s q) @ [b]
               else if r = owner_getter s b then remove1 b (owned s r) else owned s r)"
      and og: "\<And>x. owner_getter s' x = (if x = b then q else owner_getter s x)"
      by blast
    from r' have inv': "ownership_inv s'" by (rule reachable_inv)
    from b n have b': "b < n_buildings s'" by simp
    have mem: "\<forall>r<n_persons s'. (b \<in> set (owned s' r)) = (r = q)"
      using inv_member_iff [OF inv' b'] by (simp add: og)
    have gone: "b \<notin> set (owned s' (owner_getter s b))" if "q \<noteq> owner_getter s b"
    proof -
      from one b have "owner_getter s b < n_persons s'" by (simp add: n)
      with mem that show ?thesis by auto
    qed
    from s' r' mem gone show ?thesis
      by (intro exI [of _ s']) (simp add: ow og)
  qed
  from one house apps transfer show ?thesis by blast
qed

theorem exactly_one_owner_witness:
  "reachable test_store \<and>
   owner_getter test_store 1 = 0 \<and> owned test_store 0 = [0, 1] \<and> owned test_store 1 = [] \<and>
   (\<exists>s'. owner_setter 1 1 test_store = Inr s' \<and> reachable s' \<and> owner_getter s' 1 = 1 \<and>
      owned s' 0 = [0] \<and> owned s' 1 = [1])"
proof -
  have r: "reachable test_store" by (rule reachable_test_store)
  have "\<exists>s'. owner_setter 1 1 test_store = Inr s' \<and> reachable s' \<and> owner_getter s' 1 = 1 \<and>
      owned s' 0 = [0] \<and> owned s' 1 = [1]"
    using exactly_one_owner [OF r, THEN conjunct2, THEN conjunct2, THEN conjunct2, rule_format,
        of 1 1]
    by (simp add: test_store_simps) blast
  with r show ?thesis
    by (simp add: test_store_simps)
qed

section \<open>Taxes\<close>

text \<open>
  Claim C6. For every building, \<^verbatim>\<open>compute_taxes_for_building\<close> is
  \<^verbatim>\<open>LIVING_AREA_TAX_RATE * living_area + GARDEN_AREA_TAX_RATE * garden_area\<close> with
  the rates 5.6 and 1.5; for every person, \<^verbatim>\<open>compute_taxes\<close> is the sum of
  \<^verbatim>\<open>compute_taxes_for_building\<close> over the buildings the person owns, and it is 0
  for a person who owns no building.
\<close>

theorem taxes_formulas:
  "compute_taxes_for_building building =
     LIVING_AREA_TAX_RATE * real_of_int (living_area building) +
     GARDEN_AREA_TAX_RATE * real_of_int (garden_area building) \<and>
   LIVING_AREA_TAX_RATE = 5.6 \<and> GARDEN_AREA_TAX_RATE = 1.5 \<and>
   compute_taxes_for_building (House p l g) = 5.6 * real_of_int l + 1.5 * real_of_int g \<and>
   compute_taxes s person =
     sum_list (map (\<lambda>b. compute_taxes_for_building (buildings s b)) (owned s person)) \<and>
   (owned s person = [] \<longrightarrow> compute_taxes s person = 0.0)"
  by (simp add: compute_taxes_for_building_def compute_taxes_def py_sum_sum_list
      LIVING_AREA_TAX_RATE_def GARDEN_AREA_TAX_RATE_def)

lemma test_store_taxes:
  "compute_taxes_for_building (House 0 50 10) = 295"
  "compute_taxes_for_building (AppartmentBuilding 0 [Appartment 30, Appartment 60]) = 504"
  by (simp_all add: compute_taxes_for_building_def LIVING_AREA_TAX_RATE_def
      GARDEN_AREA_TAX_RATE_def py_sum_int_def)

theorem taxes_formulas_witness:
  "compute_taxes_for_building (buildings test_store 0) = 295.0 \<and>
   compute_taxes_for_building (buildings test_store 1) = 504.0 \<and>
   compute_taxes test_store 0 = 295.0 + 504.0 \<and>
   owned test_store 1 = [] \<and> compute_taxes test_store 1 = 0.0"
  using taxes_formulas [of "buildings test_store 0" 0 50 10 test_store 0]
    taxes_formulas [of "buildings test_store 1" 0 50 10 test_store 1]
  by (simp add: test_store_simps test_store_taxes)



section \<open>Transfer to the current owner\<close>

text \<open>
  Claim C9, as stated, says that assigning the current owner again changes the position
  of the building in the list of the owner. It does not when the building is already
  the last one: for a person whose only building is a house, the transfer of the house
  to its owner returns the very same store.
\<close>

theorem self_transfer_unchanged_when_last:
  "reachable one_house_store \<and>
   owner_getter one_house_store 0 = 0 \<and>
   owned one_house_store 0 = [0] \<and>
   owner_setter 0 0 one_house_store = Inr one_house_store \<and>
   position 0 (owned one_house_store 0) = 0"
proof -
  have "owner_setter 0 0 one_house_store = Inr one_house_store"
    by (simp add: owner_setter_def owned_remove_def one_house_store_simps Let_def owned_append_def)
      (simp add: one_house_store_def House_init_def Person_init_def Let_def owned_append_def
        owned_def empty_store_def)
  then show ?thesis
    by (simp add: reachable_one_house_store one_house_store_simps position_def)
qed

text \<open>
  Claim C9, amended. For every building \<open>b\<close> owned by \<open>p\<close>, the transfer
  \<^verbatim>\<open>b.owner = p\<close> succeeds and keeps the invariant: afterwards \<open>b\<close> stands once in
  the list of \<open>p\<close>, neither lost nor duplicated. The new list is the old one with
  \<open>b\<close> taken out and put at the end, so \<open>b\<close> is at the last position; its position
  changes exactly when \<open>b\<close> was not the last building of the list already. The lists
  of the other persons are unchanged.
\<close>

theorem self_transfer:
  assumes "reachable s" and "b < n_buildings s" and "owner_getter s b = p"
  shows "\<exists>s'. owner_setter b p s = Inr s' \<and> reachable s' \<and>
           owner_getter s' b = p \<and>
           owned s' p = remove1 b (owned s p) @ [b] \<and>
           count_list (owned s' p) b = 1 \<and>
           last (owned s' p) = b \<and>
           position b (owned s' p) = length (owned s p) - 1 \<and>
           (position b (owned s' p) \<noteq> position b (owned s p)) = (last (owned s p) \<noteq> b) \<and>
           (\<forall>r. r \<noteq> p \<longrightarrow> owned s' r = owned s r)"
proof -
  from assms(1) have inv: "ownership_inv s" by (rule reachable_inv)
  from inv assms(2,3) have p: "p < n_persons s"
    by (auto simp: ownership_inv_def)
  from inv assms(2,3) p have c: "count_list (owned s p) b = 1"
    by (simp add: ownership_inv_def)
  from transfer_effect [OF assms(1,2) p] obtain s' where
    s': "owner_setter b p s = Inr s'" and r': "reachable s'"
    and n: "n_persons s' = n_persons s" "n_buildings s' = n_buildings s"
    and ow: "\<And>r. owned s' r =
              (if r = p then (if p = owner_getter s b then remove1 b (owned s p) else owned s p) @ [b]
               else if r = owner_getter s b then remove1 b (owned s r) else owned s r)"
    and og: "\<And>x. owner_getter s' x = (if x = b then p else owner_getter s x)"
    by blast
  have ow_p: "owned s' p = remove1 b (owned s p) @ [b]"
    by (simp add: ow assms(3))
  from r' have "ownership_inv s'" by (rule reachable_inv)
  with assms(2) p have c': "count_list (owned s' p) b = 1"
    by (simp add: ownership_inv_def n og)
  have pos: "position b (owned s' p) = length (owned s p) - 1"
    unfolding ow_p using c by (rule position_moved_last)
  have chg: "(position b (owned s' p) \<noteq> position b (owned s p)) = (last (owned s p) \<noteq> b)"
    using position_last_iff [OF c] by (auto simp: pos)
  from s' r' c' pos chg show ?thesis
    by (intro exI [of _ s']) (simp add: ow og assms(3))
qed

theorem self_transfer_witness:
  "reachable test_store \<and> owner_getter test_store 0 = 0 \<and> owned test_store 0 = [0, 1] \<and>
   position 0 (owned test_store 0) = 0 \<and>
   (\<exists>s'. owner_setter 0 0 test_store = Inr s' \<and> owned s' 0 = [1, 0] \<and>
      position 0 (owned s' 0) = 1)"
proof -
  have r: "reachable test_store" by (rule reachable_test_store)
  have "\<exists>s'. owner_setter 0 0 test_store = Inr s' \<and> owned s' 0 = [1, 0] \<and>
      position 0 (owned s' 0) = 1"
    using self_transfer [OF r, of 0 0]
    by (simp add: test_store_simps) blast
  with r show ?thesis
    by (simp add: test_store_simps position_def)
qed

end
